theory Spec2Isabelle
  imports Complex_Main "HOL-Library.Char_ord" "HOL-Library.List_Lexorder" "HOL-Library.Multiset"
begin

section \<open>Common data: errors and arrays\<close>

text \<open>
  The exceptions that the modelled code raises, or that the numeric primitives it calls
  raise. A method of an object is modelled as a function from the object's state to a
  pair: \<open>None\<close> and the new state when the call returns, \<open>Some e\<close> and the state at the
  moment of the raise otherwise.
\<close>

datatype error = ValueError | IndexError | Exception

text \<open>
  An \<open>ndarray\<close>: its \<open>shape\<close> tuple and its elements in row-major order. Elements are
  real numbers; the rounding of floating point and NaN are outside the model.
\<close>

record ndarray =
  shape :: "nat list"
  data :: "real list"

text \<open>\<open>np.min(a)\<close> and \<open>np.max(a)\<close> without an axis reduce over all elements, and raise
  \<open>ValueError\<close> on an array of size zero.\<close>

definition np_min :: "real list \<Rightarrow> error + real" where
  "np_min a = (case a of [] \<Rightarrow> Inl ValueError | v # vs \<Rightarrow> Inr (fold min vs v))"

definition np_max :: "real list \<Rightarrow> error + real" where
  "np_max a = (case a of [] \<Rightarrow> Inl ValueError | v # vs \<Rightarrow> Inr (fold max vs v))"

text \<open>\<open>a[r, c]\<close>, \<open>a[r, :]\<close> and \<open>a[:, c]\<close> of a two-dimensional array of shape
  \<open>(numrows, numcols)\<close>, for indices inside the array.\<close>

definition item2 :: "ndarray \<Rightarrow> nat \<Rightarrow> nat \<Rightarrow> real" where
  "item2 a r c = data a ! (r * (shape a ! 1) + c)"

definition row_slice :: "ndarray \<Rightarrow> nat \<Rightarrow> real list" where
  "row_slice a r = map (\<lambda>c. item2 a r c) [0..<shape a ! 1]"

definition col_slice :: "ndarray \<Rightarrow> nat \<Rightarrow> real list" where
  "col_slice a c = map (\<lambda>r. item2 a r c) [0..<shape a ! 0]"

text \<open>\<open>np.array(rows)\<close> for a non-empty list of rows of equal length.\<close>

definition np_array :: "real list list \<Rightarrow> ndarray" where
  "np_array rows =
     \<lparr>shape = (case rows of [] \<Rightarrow> [0] | r # _ \<Rightarrow> [length rows, length r]),
      data = concat rows\<rparr>"

section \<open>Colour limit functions (cross\_section\_2d.py)\<close>

text \<open>
  \<open>fullrange_limit_factory(limit_args=None)\<close> returns the closure \<open>_full_range\<close>, which
  ignores \<open>limit_args\<close> and returns \<open>(np.min(im), np.max(im))\<close>.
\<close>

definition fullrange_limit_factory :: "'l option \<Rightarrow> ndarray \<Rightarrow> error + (real \<times> real)" where
  "fullrange_limit_factory limit_args =
     (\<lambda>im. case np_min (data im) of
              Inl e \<Rightarrow> Inl e
            | Inr lo \<Rightarrow> (case np_max (data im) of Inl e \<Rightarrow> Inl e | Inr hi \<Rightarrow> Inr (lo, hi)))"

text \<open>
  \<open>absolute_limit_factory(limit_args)\<close> returns the closure \<open>_absolute_limit\<close>, which
  returns \<open>limit_args\<close> whatever the image is.
\<close>

definition absolute_limit_factory :: "'l \<Rightarrow> ndarray \<Rightarrow> 'l" where
  "absolute_limit_factory limit_args = (\<lambda>im. limit_args)"

section \<open>The cross-section viewer (cross\_section\_2d.py, class CrossSection)\<close>

text \<open>
  The four axes of the figure, the two profile lines, the backgrounds saved for blitting
  and the calls made on the canvas, in order. The record \<open>cross_section\<close> holds the
  attributes of a \<open>CrossSection\<close> that the modelled methods read or write, from the
  moment \<open>init_artists\<close> has stored an image and the object is attached to a canvas.
  An attribute \<open>_name\<close> of the source is the field \<open>name\<close>; \<open>_row\<close>, \<open>_col\<close> and
  \<open>_auto_redraw\<close> are the fields \<open>row'\<close>, \<open>col'\<close> and \<open>auto_redraw'\<close>.
  The image artist \<open>_im\<close> is its colour limits \<open>im_clim\<close> and its data \<open>im_data\<close>.
\<close>

datatype axes = Im_ax | Ax_h | Ax_v | Ax_cb

record line2d =
  get_xdata :: "real list"
  get_ydata :: "real list"
  get_visible :: bool

datatype region = Region axes

datatype canvas_call = Restore_region "region option" | Draw_artist axes | Blit axes | Draw

record event =
  inaxes :: "axes option"
  xdata :: "real option"
  ydata :: "real option"

record cross_section =
  auto_redraw' :: bool
  limit_func :: "ndarray \<Rightarrow> error + (real \<times> real)"
  active :: bool
  dirty :: bool
  cb_dirty :: bool
  imdata :: ndarray
  im_clim :: "real \<times> real"
  im_data :: ndarray
  ax_v_xlim :: "real \<times> real"
  ax_h_ylim :: "real \<times> real"
  ln_v :: line2d
  ln_h :: line2d
  ax_v_bk :: "region option"
  ax_h_bk :: "region option"
  row' :: "int option"
  col' :: "int option"
  clear_cid :: "nat option"
  canvas :: "canvas_call list"

text \<open>Python's \<open>int(v)\<close> on a float truncates towards zero.\<close>

definition py_int :: "real \<Rightarrow> int" where
  "py_int v = (if 0 \<le> v then \<lfloor>v\<rfloor> else \<lceil>v\<rceil>)"

definition canvas_do :: "canvas_call \<Rightarrow> cross_section \<Rightarrow> cross_section" where
  "canvas_do c self = self\<lparr>canvas := canvas self @ [c]\<rparr>"

text \<open>
  \<open>move_cb\<close>: the body of the \<open>for ... in zip(...)\<close> loop runs twice, first for the
  horizontal profile (\<open>imdata[row, :]\<close>, \<open>_ln_h.set_ydata\<close>), then for the vertical one
  (\<open>imdata[:, col]\<close>, \<open>_ln_v.set_xdata\<close>); both slices are taken before the loop.
  Unpacking a shape that is not of length two raises \<open>ValueError\<close>.
\<close>

definition move_cb :: "event \<Rightarrow> cross_section \<Rightarrow> error option \<times> cross_section" where
  "move_cb event self =
     (if \<not> active self then (None, self)
      else if inaxes event \<noteq> Some Im_ax then (None, self)
      else case shape (imdata self) of
        [numrows, numcols] \<Rightarrow>
          (case (xdata event, ydata event) of
             (Some x, Some y) \<Rightarrow>
               (let s1 = self\<lparr>ln_h := (ln_h self)\<lparr>get_visible := True\<rparr>\<rparr>;
                    s2 = s1\<lparr>ln_v := (ln_v s1)\<lparr>get_visible := True\<rparr>\<rparr>;
                    col = py_int (x + 0.5);
                    row = py_int (y + 0.5)
                in if Some row \<noteq> row' s2 \<or> Some col \<noteq> col' s2 then
                     if 0 \<le> col \<and> col < int numcols \<and> 0 \<le> row \<and> row < int numrows then
                       (let s3 = s2\<lparr>col' := Some col\<rparr>;
                            s4 = s3\<lparr>row' := Some row\<rparr>;
                            data_h = row_slice (imdata s4) (nat row);
                            data_v = col_slice (imdata s4) (nat col);
                            h1 = canvas_do (Restore_region (ax_h_bk s4)) s4;
                            h2 = h1\<lparr>ln_h := (ln_h h1)\<lparr>get_ydata := data_h\<rparr>\<rparr>;
                            h3 = canvas_do (Draw_artist Ax_h) h2;
                            h4 = canvas_do (Blit Ax_h) h3;
                            v1 = canvas_do (Restore_region (ax_v_bk h4)) h4;
                            v2 = v1\<lparr>ln_v := (ln_v v1)\<lparr>get_xdata := data_v\<rparr>\<rparr>;
                            v3 = canvas_do (Draw_artist Ax_v) v2;
                            v4 = canvas_do (Blit Ax_v) v3
                        in (None, v4))
                     else (None, s2)
                   else (None, s2))
           | _ \<Rightarrow> (None, self))
      | _ \<Rightarrow> (Some ValueError, self))"

text \<open>
  \<open>clear\<close> is the callback connected to the canvas's draw event (when \<open>_clear_cid\<close> is
  set); \<open>_draw\<close> calls \<open>canvas.draw()\<close>, which fires that event.
\<close>

definition clear :: "cross_section \<Rightarrow> cross_section" where
  "clear self =
     (let s1 = self\<lparr>ax_v_bk := Some (Region Ax_v)\<rparr>;
          s2 = s1\<lparr>ax_h_bk := Some (Region Ax_h)\<rparr>;
          s3 = s2\<lparr>ln_h := (ln_h s2)\<lparr>get_visible := False\<rparr>\<rparr>
      in s3\<lparr>ln_v := (ln_v s3)\<lparr>get_visible := False\<rparr>\<rparr>)"

definition draw :: "cross_section \<Rightarrow> cross_section" where
  "draw self =
     (let s1 = canvas_do Draw self
      in if clear_cid s1 \<noteq> None then clear s1 else s1)"

text \<open>
  \<open>update_artists\<close>: \<open>vlim\<close> is the pair that the limit function returns;
  \<open>vlim[::-1]\<close> is the pair reversed. An exception of the limit function propagates.
\<close>

definition update_artists :: "cross_section \<Rightarrow> error option \<times> cross_section" where
  "update_artists self =
     (if \<not> (dirty self \<or> cb_dirty self) then (None, self)
      else case limit_func self (imdata self) of
        Inl e \<Rightarrow> (Some e, self)
      | Inr vlim \<Rightarrow>
          (let s1 = self\<lparr>im_clim := vlim\<rparr>;
               s2 = s1\<lparr>ax_v_xlim := (snd vlim, fst vlim)\<rparr>;
               s3 = s2\<lparr>ax_h_ylim := vlim\<rparr>;
               s4 = s3\<lparr>im_data := imdata s3\<rparr>;
               s5 = s4\<lparr>dirty := False\<rparr>
           in (None, s5\<lparr>cb_dirty := False\<rparr>)))"

text \<open>
  The decorator \<open>auto_redraw\<close>: \<open>force_redraw\<close> is the keyword argument of that name
  (\<open>None\<close> when absent), \<open>func\<close> the decorated method with its other arguments applied.
\<close>

definition auto_redraw ::
  "(cross_section \<Rightarrow> error option \<times> cross_section) \<Rightarrow> bool option \<Rightarrow> cross_section
     \<Rightarrow> error option \<times> cross_section" where
  "auto_redraw func force_redraw self =
     (let force = (case force_redraw of None \<Rightarrow> auto_redraw' self | Some b \<Rightarrow> b)
      in case func self of
           (Some e, s1) \<Rightarrow> (Some e, s1)
         | (None, s1) \<Rightarrow>
             if force then
               (case update_artists s1 of
                  (Some e, s2) \<Rightarrow> (Some e, s2)
                | (None, s2) \<Rightarrow> (None, draw s2))
             else (None, s1))"

text \<open>\<open>update_image\<close>: the method body, and the method as decorated.\<close>

definition update_image_func :: "ndarray \<Rightarrow> cross_section \<Rightarrow> error option \<times> cross_section" where
  "update_image_func new_image self =
     (if shape (imdata self) \<noteq> shape new_image then (Some ValueError, self)
      else (None, self\<lparr>imdata := new_image, dirty := True\<rparr>))"

definition update_image ::
  "ndarray \<Rightarrow> bool option \<Rightarrow> cross_section \<Rightarrow> error option \<times> cross_section" where
  "update_image new_image force_redraw self =
     auto_redraw (update_image_func new_image) force_redraw self"

section \<open>The stacked-line viewer (plot1D.py, class OneDimStackViewer)\<close>

text \<open>
  A line artist of the axes carries a colour besides its data. The record
  \<open>stack_viewer\<close> holds the attributes of a \<open>OneDimStackViewer\<close>: the stored
  coordinate lists \<open>_x\<close> and \<open>_y\<close> (the fields \<open>x'\<close> and \<open>y'\<close>, each entry a
  one-dimensional array), the colour lookup \<open>_rgba.to_rgba\<close>, the offsets, the
  autoscale flag, and of the axes \<open>_ax\<close> its line artists and its limits. The type
  \<open>'c\<close> is that of colours.
\<close>

record 'c stack_line = line2d +
  get_color :: "'c"

record 'c stack_viewer =
  x' :: "real list list"
  y' :: "real list list"
  to_rgba :: "real \<Rightarrow> 'c"
  horz_offset :: real
  vert_offset :: real
  autoscale :: bool
  lines :: "'c stack_line list"
  ax_xlim :: "real \<times> real"
  ax_ylim :: "real \<times> real"

definition add_line :: "real list \<Rightarrow> real list \<Rightarrow> 'c stack_viewer \<Rightarrow> 'c stack_viewer" where
  "add_line x y self = self\<lparr>x' := x' self @ [x], y' := y' self @ [y]\<rparr>"

text \<open>
  The setters of the line artist \<open>self._ax.lines[idx]\<close>, and the loop of
  \<open>replot\<close> over \<open>range(len(self._ax.lines))\<close>. An array plus a scalar
  adds the scalar to every element; indexing a list past its end raises \<open>IndexError\<close>,
  and the lines updated before that stay updated. \<open>idx / len(...)\<close> is true division.
\<close>

definition set_xdata :: "nat \<Rightarrow> real list \<Rightarrow> 'c stack_viewer \<Rightarrow> 'c stack_viewer" where
  "set_xdata idx v self = self\<lparr>lines := (lines self)[idx := (lines self ! idx)\<lparr>get_xdata := v\<rparr>]\<rparr>"

definition set_ydata :: "nat \<Rightarrow> real list \<Rightarrow> 'c stack_viewer \<Rightarrow> 'c stack_viewer" where
  "set_ydata idx v self = self\<lparr>lines := (lines self)[idx := (lines self ! idx)\<lparr>get_ydata := v\<rparr>]\<rparr>"

definition set_color :: "nat \<Rightarrow> 'c \<Rightarrow> 'c stack_viewer \<Rightarrow> 'c stack_viewer" where
  "set_color idx c self = self\<lparr>lines := (lines self)[idx := (lines self ! idx)\<lparr>get_color := c\<rparr>]\<rparr>"

fun replot_loop :: "nat list \<Rightarrow> 'c stack_viewer \<Rightarrow> error option \<times> 'c stack_viewer" where
  "replot_loop [] self = (None, self)"
| "replot_loop (idx # rest) self =
     (if length (x' self) \<le> idx then (Some IndexError, self)
      else
        let s1 = set_xdata idx (map (\<lambda>v. v + real idx * horz_offset self) (x' self ! idx)) self
        in if length (y' s1) \<le> idx then (Some IndexError, s1)
           else
             let s2 = set_ydata idx (map (\<lambda>v. v + real idx * vert_offset s1) (y' s1 ! idx)) s1;
                 norm = real idx / real (length (lines s2));
                 s3 = set_color idx (to_rgba s2 norm) s2
             in replot_loop rest s3)"

text \<open>
  \<open>find_range\<close>: the loop collects the least and greatest x and y of each line (the
  arrays \<open>min_x\<close>, \<open>max_x\<close>, \<open>min_y\<close>, \<open>max_y\<close>, filled index by index), then the
  extremes of those are returned.
\<close>

fun find_range_loop ::
  "'c stack_line list \<Rightarrow> error + (real list \<times> real list \<times> real list \<times> real list)" where
  "find_range_loop [] = Inr ([], [], [], [])"
| "find_range_loop (l # ls) =
     (case np_min (get_xdata l) of Inl e \<Rightarrow> Inl e | Inr mnx \<Rightarrow>
      case np_max (get_xdata l) of Inl e \<Rightarrow> Inl e | Inr mxx \<Rightarrow>
      case np_min (get_ydata l) of Inl e \<Rightarrow> Inl e | Inr mny \<Rightarrow>
      case np_max (get_ydata l) of Inl e \<Rightarrow> Inl e | Inr mxy \<Rightarrow>
      case find_range_loop ls of Inl e \<Rightarrow> Inl e
      | Inr (min_x, max_x, min_y, max_y) \<Rightarrow>
          Inr (mnx # min_x, mxx # max_x, mny # min_y, mxy # max_y))"

definition find_range :: "'c stack_viewer \<Rightarrow> error + (real \<times> real \<times> real \<times> real)" where
  "find_range self =
     (case find_range_loop (lines self) of Inl e \<Rightarrow> Inl e
      | Inr (min_x, max_x, min_y, max_y) \<Rightarrow>
      case np_min min_x of Inl e \<Rightarrow> Inl e | Inr a \<Rightarrow>
      case np_max max_x of Inl e \<Rightarrow> Inl e | Inr b \<Rightarrow>
      case np_min min_y of Inl e \<Rightarrow> Inl e | Inr c \<Rightarrow>
      case np_max max_y of Inl e \<Rightarrow> Inl e | Inr d \<Rightarrow> Inr (a, b, c, d))"

definition replot :: "'c stack_viewer \<Rightarrow> error option \<times> 'c stack_viewer" where
  "replot self =
     (case replot_loop [0..<length (lines self)] self of
        (Some e, s) \<Rightarrow> (Some e, s)
      | (None, s) \<Rightarrow>
          if autoscale s then
            (case find_range s of
               Inl e \<Rightarrow> (Some e, s)
             | Inr (min_x, max_x, min_y, max_y) \<Rightarrow>
                 (None, s\<lparr>ax_xlim := (min_x, max_x), ax_ylim := (min_y, max_y)\<rparr>))
          else (None, s))"

section \<open>Construction of the 2D view (cross\_section\_2d.py, class CrossSection2DView)\<close>

text \<open>
  \<open>CrossSection2DView.__init__\<close>: \<open>kwargs\<close> are the extra keyword arguments, by name.
  The initialisation after the check (the parent classes' \<open>__init__\<close>, which are not
  part of the sources at hand, and the construction of the \<open>CrossSection\<close>) is the
  parameter \<open>init_rest\<close>, acting on a state \<open>w\<close> of the objects being set up.
\<close>

definition CrossSection2DView_init ::
  "(string \<rightharpoonup> 'v) \<Rightarrow> ('w \<Rightarrow> error option \<times> 'w) \<Rightarrow> 'w \<Rightarrow> error option \<times> 'w" where
  "CrossSection2DView_init kwargs init_rest w =
     (if ''limit_args'' \<in> dom kwargs then (Some Exception, w) else init_rest w)"

section \<open>The tree view (displaydict.py, class RecursiveTreeWidget)\<close>

text \<open>
  The objects shown. \<open>PyDict\<close> is an instance of \<open>dict\<close> and \<open>PyList\<close> an
  instance of \<open>list\<close> (what \<open>isinstance\<close> tests), each with the mark \<open>Exact\<close> when
  its type is exactly \<open>dict\<close> or \<open>list\<close> (what \<open>type(v) is dict\<close> tests) and
  \<open>Subclass\<close> when it is an instance of a subclass. A \<open>dict\<close> is the list of its
  items, with distinct keys, in the order its iteration gives them. \<open>PyOther\<close> is any
  other object; keys are such objects, and the type \<open>'a\<close> of these objects carries
  the order in which Python compares them. The text \<open>unicode(obj)\<close> of an object is
  given by the parameter \<open>unicode\<close> of the functions below. A tree item is its text
  in column 0, its expanded flag and its children; \<open>QTreeWidgetItem\<close> is a new item.
\<close>

datatype pytype = Exact | Subclass

datatype 'a pyobj =
    PyDict pytype "('a \<times> 'a pyobj) list"
  | PyList pytype "'a pyobj list"
  | PyOther 'a

fun type_is_dict :: "'a pyobj \<Rightarrow> bool" where
  "type_is_dict (PyDict t kvs) = (t = Exact)"
| "type_is_dict (PyList t vs) = False"
| "type_is_dict (PyOther a) = False"

fun type_is_list :: "'a pyobj \<Rightarrow> bool" where
  "type_is_list (PyDict t kvs) = False"
| "type_is_list (PyList t vs) = (t = Exact)"
| "type_is_list (PyOther a) = False"

datatype item = Item (item_text: string) (isExpanded: bool) (child_items: "item list")

definition QTreeWidgetItem :: item where
  "QTreeWidgetItem = Item [] False []"

fun setText :: "string \<Rightarrow> item \<Rightarrow> item" where
  "setText t (Item _ e cs) = Item t e cs"

fun setExpanded :: "bool \<Rightarrow> item \<Rightarrow> item" where
  "setExpanded e (Item t _ cs) = Item t e cs"

fun add_child :: "item \<Rightarrow> item \<Rightarrow> item" where
  "add_child (Item t e cs) child = Item t e (cs @ [child])"

text \<open>\<open>_defaults["expanded"]\<close>.\<close>

definition defaults_expanded :: bool where
  "defaults_expanded = False"

text \<open>
  \<open>sorted(six.iteritems(obj))\<close> orders the items as pairs of key and value; as the
  keys of a \<open>dict\<close> are distinct, the comparison of the key objects alone decides.
\<close>

definition sorted_items :: "('a::linorder \<times> 'a pyobj) list \<Rightarrow> ('a \<times> 'a pyobj) list" where
  "sorted_items kvs = sort_key fst kvs"

lemma size_dict_value:
  "(k, v) \<in> set kvs \<Longrightarrow> size v < Suc (size_list (size_prod (\<lambda>_. 0) size) kvs)"
  by (induction kvs) auto

lemma size_list_value: "v \<in> set vs \<Longrightarrow> size v < Suc (size_list size vs)"
  by (induction vs) auto

text \<open>
  \<open>fill_item\<close> returns the node as the call leaves it. The source adds each new child
  to the node and then sets its text and fills it; the node holds a reference to the
  child, so this is the node with the finished child appended. \<open>node_name\<close> is the
  optional argument of that name.
\<close>

function fill_item ::
  "('a::linorder pyobj \<Rightarrow> string) \<Rightarrow> item \<Rightarrow> 'a pyobj \<Rightarrow> 'a pyobj option \<Rightarrow> item" where
  "fill_item unicode node (PyDict t kvs) node_name =
     fold (\<lambda>(k, v) node.
             let dict_child = setText (unicode (PyOther k)) QTreeWidgetItem
             in add_child node (fill_item unicode dict_child v None))
          (sorted_items kvs) (setExpanded defaults_expanded node)"
| "fill_item unicode node (PyList t vs) node_name =
     fold (\<lambda>v node.
             let list_child =
                   (if type_is_dict v then
                      fill_item unicode (setText ''[dict]'' QTreeWidgetItem) v None
                    else if type_is_list v then
                      fill_item unicode (setText ''[list]'' QTreeWidgetItem) v None
                    else setText (unicode v) QTreeWidgetItem)
             in add_child node (setExpanded defaults_expanded list_child))
          vs (setExpanded defaults_expanded node)"
| "fill_item unicode node (PyOther a) node_name =
     (let child = setText (unicode (case node_name of None \<Rightarrow> PyOther a | Some n \<Rightarrow> n))
                    QTreeWidgetItem
      in add_child (setExpanded defaults_expanded node) child)"
  by pat_completeness auto
termination fill_item
  by (relation "measure (\<lambda>(unicode, node, obj, node_name). size obj)")
    (auto simp: sorted_items_def dest: size_dict_value size_list_value)

text \<open>
  The widget is its invisible root item. \<open>QTreeWidget.clear()\<close> removes all items;
  \<open>fill_widget\<close> clears and fills from the root.
\<close>

record tree_widget =
  invisibleRootItem :: item

definition tree_clear :: "tree_widget \<Rightarrow> tree_widget" where
  "tree_clear self =
     self\<lparr>invisibleRootItem :=
       Item (item_text (invisibleRootItem self)) (isExpanded (invisibleRootItem self)) []\<rparr>"

definition fill_widget ::
  "('a::linorder pyobj \<Rightarrow> string) \<Rightarrow> 'a pyobj \<Rightarrow> tree_widget \<Rightarrow> tree_widget" where
  "fill_widget unicode obj self =
     (let s1 = tree_clear self
      in s1\<lparr>invisibleRootItem := fill_item unicode (invisibleRootItem s1) obj None\<rparr>)"

section \<open>Example objects\<close>

text \<open>A two by two image in a viewer that redraws automatically, a motion event over
  its cell (1, 1), and images to replace the stored one with.\<close>

definition example_image :: ndarray where
  "example_image = \<lparr>shape = [2, 2], data = [1, 2, 3, 4]\<rparr>"

definition example_cross_section :: cross_section where
  "example_cross_section =
     \<lparr>auto_redraw' = True, limit_func = fullrange_limit_factory (None :: unit option),
      active = True, dirty = False, cb_dirty = False,
      imdata = example_image, im_clim = (1, 4), im_data = example_image,
      ax_v_xlim = (4, 1), ax_h_ylim = (1, 4),
      ln_v = \<lparr>get_xdata = [0, 0], get_ydata = [0, 1], get_visible = False\<rparr>,
      ln_h = \<lparr>get_xdata = [0, 1], get_ydata = [0, 0], get_visible = False\<rparr>,
      ax_v_bk = Some (Region Ax_v), ax_h_bk = Some (Region Ax_h),
      row' = None, col' = None, clear_cid = Some 3, canvas = []\<rparr>"

definition example_event :: event where
  "example_event = \<lparr>inaxes = Some Im_ax, xdata = Some 1.2, ydata = Some 0.8\<rparr>"


definition small_image :: ndarray where
  "small_image = \<lparr>shape = [1, 1], data = [9]\<rparr>"

definition empty_image :: ndarray where
  "empty_image = \<lparr>shape = [0, 0], data = []\<rparr>"

definition other_image :: ndarray where
  "other_image = \<lparr>shape = [2, 2], data = [5, 6, 7, 8]\<rparr>"

text \<open>A viewer of two lines with autoscaling on.\<close>

definition example_viewer :: "real stack_viewer" where
  "example_viewer =
     \<lparr>x' = [ [0, 1], [0, 1] ], y' = [ [1, 2], [3, 5] ], to_rgba = (\<lambda>v. v),
      horz_offset = 0.5, vert_offset = 10, autoscale = True,
      lines = [\<lparr>get_xdata = [0, 1], get_ydata = [1, 2], get_visible = True, get_color = 0\<rparr>,
               \<lparr>get_xdata = [0, 1], get_ydata = [3, 5], get_visible = True, get_color = 0\<rparr>],
      ax_xlim = (0, 1), ax_ylim = (0, 1)\<rparr>"

text \<open>
  Nested structures and the text of their objects: one of strings, and one with numbers
  as keys, where 9 comes before 10 and the text \<open>10\<close> before the text \<open>9\<close>, holding an
  instance of a subclass of \<open>dict\<close>. Containers are given an abbreviated text. Last, a
  widget that already shows a tree.
\<close>

fun str_unicode :: "string pyobj \<Rightarrow> string" where
  "str_unicode (PyOther s) = s"
| "str_unicode (PyDict t kvs) = (if t = Exact then ''{...}'' else ''OrderedDict(...)'')"
| "str_unicode (PyList t vs) = (if t = Exact then ''[...]'' else ''MyList(...)'')"


definition example_tree :: "string pyobj" where
  "example_tree =
     PyDict Exact
       [(''b'', PyOther ''1''),
        (''a'', PyList Exact [PyOther ''x'', PyDict Exact [(''k'', PyOther ''v'')],
                              PyList Exact [PyOther ''y''] ])]"


definition example_widget :: tree_widget where
  "example_widget = \<lparr>invisibleRootItem = Item [] True [Item ''old'' True [] ]\<rparr>"

section \<open>Properties of the limit functions\<close>

lemma fold_min_Min: "fold min vs (v::real) = Min (set (v # vs))"
  by (rule Min.set_eq_fold [symmetric])

lemma fold_max_Max: "fold max vs (v::real) = Max (set (v # vs))"
  by (rule Max.set_eq_fold [symmetric])

lemma np_min_nonempty: "a \<noteq> [] \<Longrightarrow> np_min a = Inr (Min (set a))"
  by (cases a) (simp_all add: np_min_def fold_min_Min del: set_simps)

lemma np_max_nonempty: "a \<noteq> [] \<Longrightarrow> np_max a = Inr (Max (set a))"
  by (cases a) (simp_all add: np_max_def fold_max_Max del: set_simps)

text \<open>
  C2. For an image with at least one element, the function returned by
  \<open>fullrange_limit_factory\<close> returns the pair of the least and the greatest element of the
  image: both bounds are elements of the image and every element lies between them.
  (On an image of size zero \<open>np.min\<close> raises \<open>ValueError\<close>: there is no element.)
\<close>

theorem fullrange_limit_min_max:
  assumes "data im \<noteq> []"
  shows "fullrange_limit_factory limit_args im = Inr (Min (set (data im)), Max (set (data im)))
    \<and> Min (set (data im)) \<in> set (data im)
    \<and> Max (set (data im)) \<in> set (data im)
    \<and> (\<forall>v \<in> set (data im). Min (set (data im)) \<le> v \<and> v \<le> Max (set (data im)))"
  using assms
  by (simp add: fullrange_limit_factory_def np_min_nonempty np_max_nonempty)

theorem fullrange_limit_min_max_witness:
  "data \<lparr>shape = [2, 2], data = [3, -1, 4, 1]\<rparr> \<noteq> []
   \<and> fullrange_limit_factory (None :: unit option) \<lparr>shape = [2, 2], data = [3, -1, 4, 1]\<rparr>
       = Inr (-1, 4)"
  using fullrange_limit_min_max [of "\<lparr>shape = [2, 2], data = [3, -1, 4, 1]\<rparr>" "None :: unit option"]
  by simp

text \<open>
  C3. The function returned by \<open>absolute_limit_factory limit_args\<close> returns \<open>limit_args\<close>
  unchanged for every image, so two calls with different images give the same value.
\<close>

theorem absolute_limit_ignores_image:
  "absolute_limit_factory limit_args im = limit_args
   \<and> absolute_limit_factory limit_args im1 = absolute_limit_factory limit_args im2"
  by (simp add: absolute_limit_factory_def)

section \<open>Properties of the cross-section viewer\<close>

text \<open>The slices of an array built from its rows are the row and the column asked for.\<close>

lemma concat_nth_rect:
  "\<forall>row \<in> set rows. length row = n \<Longrightarrow> r < length rows \<Longrightarrow> c < n
     \<Longrightarrow> concat rows ! (r * n + c) = rows ! r ! c"
proof (induction rows arbitrary: r)
  case Nil
  then show ?case by simp
next
  case (Cons row rows)
  show ?case
  proof (cases r)
    case 0
    with Cons.prems show ?thesis by (simp add: nth_append)
  next
    case (Suc r')
    with Cons.prems have "concat rows ! (r' * n + c) = rows ! r' ! c"
      by (intro Cons.IH) auto
    moreover from Cons.prems have "length row = n" by simp
    ultimately show ?thesis using Suc by (simp add: nth_append)
  qed
qed

lemma np_array_slices:
  assumes "\<forall>row \<in> set rows. length row = n" and "rows \<noteq> []"
  shows "shape (np_array rows) = [length rows, n]"
    and "r < length rows \<Longrightarrow> row_slice (np_array rows) r = rows ! r"
    and "c < n \<Longrightarrow> col_slice (np_array rows) c = map (\<lambda>row. row ! c) rows"
proof -
  from assms show sh: "shape (np_array rows) = [length rows, n]"
    by (cases rows) (simp_all add: np_array_def)
  have at: "item2 (np_array rows) i j = rows ! i ! j" if "i < length rows" "j < n" for i j
    using that assms(1) sh by (simp add: item2_def concat_nth_rect) (simp add: np_array_def concat_nth_rect)
  show "row_slice (np_array rows) r = rows ! r" if "r < length rows"
    using that assms(1) sh by (auto simp: row_slice_def at intro!: nth_equalityI)
  show "col_slice (np_array rows) c = map (\<lambda>row. row ! c) rows" if "c < n"
    using that sh by (auto simp: col_slice_def at intro!: nth_equalityI)
qed

lemma example_slices:
  "row_slice example_image (Suc 0) = [3, 4]" "col_slice example_image (Suc 0) = [2, 4]"
  by (simp_all add: example_image_def row_slice_def col_slice_def item2_def upt_rec)

lemma update_artists_clean:
  "\<not> dirty self \<Longrightarrow> \<not> cb_dirty self \<Longrightarrow> update_artists self = (None, self)"
  by (simp add: update_artists_def)

lemma update_artists_Inl:
  "dirty self \<or> cb_dirty self \<Longrightarrow> limit_func self (imdata self) = Inl e
     \<Longrightarrow> update_artists self = (Some e, self)"
  by (simp add: update_artists_def)

lemma update_artists_Inr:
  "dirty self \<or> cb_dirty self \<Longrightarrow> limit_func self (imdata self) = Inr vlim
     \<Longrightarrow> update_artists self =
         (None, self\<lparr>im_clim := vlim, ax_v_xlim := (snd vlim, fst vlim), ax_h_ylim := vlim,
                   im_data := imdata self, dirty := False, cb_dirty := False\<rparr>)"
  by (simp add: update_artists_def Let_def)

lemma draw_fields:
  "imdata (draw self) = imdata self" "dirty (draw self) = dirty self"
  "cb_dirty (draw self) = cb_dirty self" "im_data (draw self) = im_data self"
  "im_clim (draw self) = im_clim self"
  by (simp_all add: draw_def clear_def canvas_do_def Let_def)

lemma auto_redraw_unforced:
  "\<not> (case force_redraw of None \<Rightarrow> auto_redraw' self | Some b \<Rightarrow> b)
     \<Longrightarrow> auto_redraw func force_redraw self = func self"
  by (simp add: auto_redraw_def Let_def split: prod.splits option.splits)

lemma auto_redraw_raised:
  "func self = (Some e, s1) \<Longrightarrow> auto_redraw func force_redraw self = (Some e, s1)"
  by (simp add: auto_redraw_def Let_def)

lemma auto_redraw_forced:
  "(case force_redraw of None \<Rightarrow> auto_redraw' self | Some b \<Rightarrow> b) \<Longrightarrow> func self = (None, s1)
     \<Longrightarrow> auto_redraw func force_redraw self =
         (case update_artists s1 of (Some e, s2) \<Rightarrow> (Some e, s2) | (None, s2) \<Rightarrow> (None, draw s2))"
  by (simp add: auto_redraw_def Let_def)

lemma update_image_func_mismatch:
  "shape (imdata self) \<noteq> shape new_image
     \<Longrightarrow> update_image_func new_image self = (Some ValueError, self)"
  by (simp add: update_image_func_def)

lemma update_image_func_match:
  "shape (imdata self) = shape new_image
     \<Longrightarrow> update_image_func new_image self = (None, self\<lparr>imdata := new_image, dirty := True\<rparr>)"
  by (simp add: update_image_func_def)

lemma example_limits:
  "limit_func example_cross_section other_image = Inr (5, 8)"
  "limit_func (example_cross_section\<lparr>imdata := empty_image\<rparr>) empty_image = Inl ValueError"
  by (simp_all add: example_cross_section_def other_image_def empty_image_def
      fullrange_limit_factory_def np_min_def np_max_def)

lemma example_shapes:
  "shape (imdata example_cross_section) \<noteq> shape small_image"
  "shape (imdata example_cross_section) = shape other_image"
  "shape (imdata (example_cross_section\<lparr>imdata := empty_image\<rparr>)) = shape empty_image"
  by (simp_all add: example_cross_section_def example_image_def other_image_def
      small_image_def empty_image_def)

text \<open>
  C1 (as amended). Let an image of shape \<open>(numrows, numcols)\<close> be stored and a motion
  event lie inside the main image axes at \<open>(x, y)\<close>, with \<open>col = int(x + 0.5)\<close> and
  \<open>row = int(y + 0.5)\<close>. \<open>move_cb\<close> returns without an exception. If the viewer is
  active, the cell differs from the last-drawn one and lies inside the image, the
  horizontal profile's y-data becomes row \<open>row\<close> of the image, the vertical profile's
  x-data becomes column \<open>col\<close>, and \<open>(row, col)\<close> is recorded as last drawn. In every
  that case each profile is blitted: its saved background is restored, the line drawn
  and the axes region blitted, the horizontal profile first. In every other case (the
  viewer is inactive, the cell is outside the image, or it is the last-drawn cell)
  neither line's data, nor the recorded cell, nor the canvas changes, and an inactive
  viewer is left as it is.
\<close>

theorem move_cb_profiles:
  assumes "inaxes event = Some Im_ax" and "xdata event = Some x" and "ydata event = Some y"
    and "shape (imdata self) = [numrows, numcols]"
    and "col = py_int (x + 0.5)" and "row = py_int (y + 0.5)"
    and "s = snd (move_cb event self)"
  shows "fst (move_cb event self) = None
    \<and> (active self \<and> (Some row \<noteq> row' self \<or> Some col \<noteq> col' self)
         \<and> 0 \<le> col \<and> col < int numcols \<and> 0 \<le> row \<and> row < int numrows
        \<longrightarrow> get_ydata (ln_h s) = row_slice (imdata self) (nat row)
          \<and> get_xdata (ln_v s) = col_slice (imdata self) (nat col)
          \<and> row' s = Some row \<and> col' s = Some col
          \<and> get_xdata (ln_h s) = get_xdata (ln_h self)
          \<and> get_ydata (ln_v s) = get_ydata (ln_v self)
          \<and> canvas s = canvas self @
                [Restore_region (ax_h_bk self), Draw_artist Ax_h, Blit Ax_h,
                 Restore_region (ax_v_bk self), Draw_artist Ax_v, Blit Ax_v])
    \<and> (\<not> active self \<longrightarrow> s = self)
    \<and> (\<not> (active self \<and> (Some row \<noteq> row' self \<or> Some col \<noteq> col' self)
         \<and> 0 \<le> col \<and> col < int numcols \<and> 0 \<le> row \<and> row < int numrows)
        \<longrightarrow> ln_h s = (ln_h self)\<lparr>get_visible := get_visible (ln_h s)\<rparr>
          \<and> ln_v s = (ln_v self)\<lparr>get_visible := get_visible (ln_v s)\<rparr>
          \<and> row' s = row' self \<and> col' s = col' self \<and> canvas s = canvas self)"
  using assms
  by (auto simp: move_cb_def Let_def canvas_do_def)

theorem move_cb_profiles_witness:
  "get_ydata (ln_h (snd (move_cb example_event example_cross_section))) = [3, 4]
   \<and> get_xdata (ln_v (snd (move_cb example_event example_cross_section))) = [2, 4]
   \<and> row' (snd (move_cb example_event example_cross_section)) = Some 1
   \<and> col' (snd (move_cb example_event example_cross_section)) = Some 1
   \<and> get_ydata (ln_h (snd (move_cb (example_event\<lparr>xdata := Some 5\<rparr>) example_cross_section))) = [0, 0]
   \<and> get_xdata (ln_v (snd (move_cb (example_event\<lparr>xdata := Some 5\<rparr>) example_cross_section))) = [0, 0]
   \<and> row' (snd (move_cb (example_event\<lparr>xdata := Some 5\<rparr>) example_cross_section)) = None"
proof -
  let ?cs = example_cross_section
  let ?far = "example_event\<lparr>xdata := Some 5\<rparr>"
  have ev: "inaxes example_event = Some Im_ax" "xdata example_event = Some 1.2"
    "ydata example_event = Some 0.8"
    by (simp_all add: example_event_def)
  have far: "inaxes ?far = Some Im_ax" "xdata ?far = Some 5" "ydata ?far = Some 0.8"
    by (simp_all add: example_event_def)
  have sh: "shape (imdata ?cs) = [2, 2]"
    by (simp add: example_cross_section_def example_image_def)
  have cells: "1 = py_int (1.2 + 0.5)" "1 = py_int (0.8 + 0.5)" "5 = py_int (5 + 0.5)"
    by (simp_all add: py_int_def)
  have inside:
    "active ?cs \<and> (Some (1::int) \<noteq> row' ?cs \<or> Some (1::int) \<noteq> col' ?cs)
      \<and> (0::int) \<le> 1 \<and> (1::int) < int 2 \<and> (0::int) \<le> 1 \<and> (1::int) < int 2"
    by (simp add: example_cross_section_def)
  have outside:
    "\<not> (active ?cs \<and> (Some (1::int) \<noteq> row' ?cs \<or> Some (5::int) \<noteq> col' ?cs)
      \<and> (0::int) \<le> 5 \<and> (5::int) < int 2 \<and> (0::int) \<le> 1 \<and> (1::int) < int 2)"
    by simp
  have old: "get_ydata (ln_h ?cs) = [0, 0]" "get_xdata (ln_v ?cs) = [0, 0]" "row' ?cs = None"
    "imdata ?cs = example_image"
    by (simp_all add: example_cross_section_def)
  note near = move_cb_profiles [OF ev sh cells(1) cells(2) refl]
  note away = move_cb_profiles [OF far sh cells(3) cells(2) refl]
  from near inside have
    "get_ydata (ln_h (snd (move_cb example_event ?cs))) = row_slice (imdata ?cs) (nat 1)
     \<and> get_xdata (ln_v (snd (move_cb example_event ?cs))) = col_slice (imdata ?cs) (nat 1)
     \<and> row' (snd (move_cb example_event ?cs)) = Some 1
     \<and> col' (snd (move_cb example_event ?cs)) = Some 1"
    by blast
  moreover from away outside have
    "ln_h (snd (move_cb ?far ?cs)) = (ln_h ?cs)\<lparr>get_visible := get_visible (ln_h (snd (move_cb ?far ?cs)))\<rparr>
     \<and> ln_v (snd (move_cb ?far ?cs)) = (ln_v ?cs)\<lparr>get_visible := get_visible (ln_v (snd (move_cb ?far ?cs)))\<rparr>
     \<and> row' (snd (move_cb ?far ?cs)) = row' ?cs"
    by blast
  then have
    "get_ydata (ln_h (snd (move_cb ?far ?cs))) = get_ydata (ln_h ?cs)
     \<and> get_xdata (ln_v (snd (move_cb ?far ?cs))) = get_xdata (ln_v ?cs)
     \<and> row' (snd (move_cb ?far ?cs)) = row' ?cs"
    by (metis line2d.select_convs(1,2) line2d.surjective line2d.update_convs(3))
  ultimately show ?thesis
    by (simp add: old example_slices)
qed

text \<open>
  The claim without the condition on \<open>_active\<close> fails: in an inactive viewer an event
  over the in-bounds, not yet drawn cell (1, 1) changes neither profile line.
\<close>

theorem move_cb_inactive_counterexample:
  "inaxes example_event = Some Im_ax
   \<and> xdata example_event = Some 1.2 \<and> ydata example_event = Some 0.8
   \<and> py_int (1.2 + 0.5) = 1 \<and> py_int (0.8 + 0.5) = 1
   \<and> shape (imdata (example_cross_section\<lparr>active := False\<rparr>)) = [2, 2]
   \<and> row' (example_cross_section\<lparr>active := False\<rparr>) \<noteq> Some 1
   \<and> get_ydata (ln_h (snd (move_cb example_event (example_cross_section\<lparr>active := False\<rparr>))))
         \<noteq> row_slice (imdata (example_cross_section\<lparr>active := False\<rparr>)) 1
   \<and> get_xdata (ln_v (snd (move_cb example_event (example_cross_section\<lparr>active := False\<rparr>))))
         \<noteq> col_slice (imdata (example_cross_section\<lparr>active := False\<rparr>)) 1
   \<and> row' (snd (move_cb example_event (example_cross_section\<lparr>active := False\<rparr>))) \<noteq> Some 1"
proof -
  have "move_cb example_event (example_cross_section\<lparr>active := False\<rparr>)
          = (None, example_cross_section\<lparr>active := False\<rparr>)"
    by (simp add: move_cb_def)
  moreover have "imdata (example_cross_section\<lparr>active := False\<rparr>) = example_image"
    "get_ydata (ln_h (example_cross_section\<lparr>active := False\<rparr>)) = [0, 0]"
    "get_xdata (ln_v (example_cross_section\<lparr>active := False\<rparr>)) = [0, 0]"
    "row' (example_cross_section\<lparr>active := False\<rparr>) = None"
    by (simp_all add: example_cross_section_def)
  moreover have "shape example_image = [2, 2]"
    by (simp add: example_image_def)
  ultimately show ?thesis
    by (simp add: example_event_def py_int_def example_slices)
qed

text \<open>
  C4 (as amended). The body of \<open>update_image\<close> raises \<open>ValueError\<close> exactly when the
  shapes differ, and the call then leaves the object unchanged. When the shapes agree the
  body stores the new image and sets the dirty flag. The decorated method then returns
  with the flag still set only if no redraw is forced (\<open>force_redraw\<close> false, or absent
  with \<open>_auto_redraw\<close> false). If a redraw is forced, \<open>update_artists\<close> runs on the
  new image: when the limit function returns, the call returns with the new image stored
  and shown and both flags cleared; when it raises, its exception propagates, with the new
  image stored and the dirty flag set.
\<close>

theorem update_image_redraw:
  assumes "force = (case force_redraw of None \<Rightarrow> auto_redraw' self | Some b \<Rightarrow> b)"
    and "r = update_image new_image force_redraw self"
  shows "((fst (update_image_func new_image self) = Some ValueError)
            = (shape (imdata self) \<noteq> shape new_image))
    \<and> (shape (imdata self) \<noteq> shape new_image \<longrightarrow> r = (Some ValueError, self))
    \<and> (shape (imdata self) = shape new_image \<longrightarrow>
          update_image_func new_image self = (None, self\<lparr>imdata := new_image, dirty := True\<rparr>)
          \<and> imdata (snd r) = new_image)
    \<and> (shape (imdata self) = shape new_image \<and> \<not> force \<longrightarrow>
          r = (None, self\<lparr>imdata := new_image, dirty := True\<rparr>))
    \<and> (shape (imdata self) = shape new_image \<and> force
          \<and> limit_func self new_image = Inr vlim \<longrightarrow>
          fst r = None \<and> \<not> dirty (snd r) \<and> \<not> cb_dirty (snd r) \<and> im_data (snd r) = new_image
          \<and> im_clim (snd r) = vlim)
    \<and> (shape (imdata self) = shape new_image \<and> force
          \<and> limit_func self new_image = Inl e \<longrightarrow>
          r = (Some e, self\<lparr>imdata := new_image, dirty := True\<rparr>))"
proof (cases "shape (imdata self) = shape new_image")
  case False
  with assms show ?thesis
    by (simp add: update_image_def update_image_func_mismatch auto_redraw_raised)
next
  case True
  let ?s1 = "self\<lparr>imdata := new_image, dirty := True\<rparr>"
  have body: "update_image_func new_image self = (None, ?s1)"
    using True by (rule update_image_func_match)
  show ?thesis
  proof (cases force)
    case False
    with assms have "r = (None, ?s1)"
      by (simp add: update_image_def auto_redraw_unforced body)
    with True False body show ?thesis by simp
  next
    case forced: True
    with assms have r: "r = (case update_artists ?s1 of
        (Some e, s2) \<Rightarrow> (Some e, s2) | (None, s2) \<Rightarrow> (None, draw s2))"
      by (simp add: update_image_def auto_redraw_forced [where func = "update_image_func new_image", OF _ body])
    show ?thesis
    proof (cases "limit_func self new_image")
      case (Inl e')
      then have "update_artists ?s1 = (Some e', ?s1)"
        by (simp add: update_artists_Inl)
      with r True forced body Inl show ?thesis by simp
    next
      case (Inr v)
      then have "update_artists ?s1 =
         (None, ?s1\<lparr>im_clim := v, ax_v_xlim := (snd v, fst v), ax_h_ylim := v,
                   im_data := imdata ?s1, dirty := False, cb_dirty := False\<rparr>)"
        by (simp add: update_artists_Inr)
      with r True forced body Inr show ?thesis by (simp add: draw_fields)
    qed
  qed
qed

theorem update_image_redraw_witness:
  "update_image small_image None example_cross_section = (Some ValueError, example_cross_section)
   \<and> fst (update_image other_image (Some False) example_cross_section) = None
   \<and> imdata (snd (update_image other_image (Some False) example_cross_section)) = other_image
   \<and> dirty (snd (update_image other_image (Some False) example_cross_section))
   \<and> fst (update_image other_image None example_cross_section) = None
   \<and> im_clim (snd (update_image other_image None example_cross_section)) = (5, 8)
   \<and> \<not> dirty (snd (update_image other_image None example_cross_section))
   \<and> fst (update_image empty_image None (example_cross_section\<lparr>imdata := empty_image\<rparr>))
        = Some ValueError
   \<and> dirty (snd (update_image empty_image None (example_cross_section\<lparr>imdata := empty_image\<rparr>)))"
proof -
  let ?cs = example_cross_section
  let ?ce = "example_cross_section\<lparr>imdata := empty_image\<rparr>"
  have forced: "True = (case None of None \<Rightarrow> auto_redraw' ?cs | Some b \<Rightarrow> b)"
    "True = (case None of None \<Rightarrow> auto_redraw' ?ce | Some b \<Rightarrow> b)"
    and unforced: "False = (case Some False of None \<Rightarrow> auto_redraw' ?cs | Some b \<Rightarrow> b)"
    by (simp_all add: example_cross_section_def)
  from update_image_redraw [OF forced(1) refl, of small_image] example_shapes(1)
  have "update_image small_image None ?cs = (Some ValueError, ?cs)"
    by blast
  moreover from update_image_redraw [OF unforced refl, of other_image] example_shapes(2)
  have "update_image other_image (Some False) ?cs = (None, ?cs\<lparr>imdata := other_image, dirty := True\<rparr>)"
    by blast
  moreover from update_image_redraw [OF forced(1) refl, of other_image "(5, 8)"]
    example_shapes(2) example_limits(1)
  have "fst (update_image other_image None ?cs) = None
    \<and> \<not> dirty (snd (update_image other_image None ?cs))
    \<and> im_clim (snd (update_image other_image None ?cs)) = (5, 8)"
    by blast
  moreover from update_image_redraw [OF forced(2) refl, of empty_image _ ValueError]
    example_shapes(3) example_limits(2)
  have "update_image empty_image None ?ce = (Some ValueError, ?ce\<lparr>imdata := empty_image, dirty := True\<rparr>)"
    by blast
  ultimately show ?thesis by simp
qed

text \<open>
  The claim's "when it does not raise, the dirty flag is set" fails for the decorated
  method: with \<open>_auto_redraw\<close> true (the constructor's default) the call returns
  without an exception, the new image stored, and the dirty flag cleared by the redraw.
\<close>

theorem update_image_dirty_counterexample:
  "shape (imdata example_cross_section) = shape other_image
   \<and> fst (update_image other_image None example_cross_section) = None
   \<and> imdata (snd (update_image other_image None example_cross_section)) = other_image
   \<and> \<not> dirty (snd (update_image other_image None example_cross_section))"
  by (simp add: update_image_def update_image_func_def auto_redraw_def update_artists_def
      draw_def clear_def canvas_do_def Let_def example_cross_section_def example_image_def
      other_image_def fullrange_limit_factory_def np_min_def np_max_def)

text \<open>
  C5. \<open>update_artists\<close> changes nothing when neither flag is set. When a flag is set
  and the limit function returns \<open>vlim\<close> for the stored image, the call returns with
  the image's colour limits equal to \<open>vlim\<close>, the x-limits of the vertical profile
  equal to \<open>vlim\<close> reversed, the y-limits of the horizontal profile equal to
  \<open>vlim\<close>, and the stored image as the image shown. After every call that returns,
  both flags are false.
\<close>

theorem update_artists_flags:
  assumes "s = snd (update_artists self)"
  shows "(\<not> dirty self \<and> \<not> cb_dirty self \<longrightarrow> update_artists self = (None, self))
    \<and> ((dirty self \<or> cb_dirty self) \<and> limit_func self (imdata self) = Inr vlim \<longrightarrow>
          fst (update_artists self) = None
          \<and> im_clim s = vlim \<and> ax_v_xlim s = (snd vlim, fst vlim) \<and> ax_h_ylim s = vlim
          \<and> im_data s = imdata self)
    \<and> (fst (update_artists self) = None \<longrightarrow> \<not> dirty s \<and> \<not> cb_dirty s)"
proof (cases "dirty self \<or> cb_dirty self")
  case False
  with assms show ?thesis by (simp add: update_artists_clean)
next
  case True
  show ?thesis
  proof (cases "limit_func self (imdata self)")
    case (Inl e)
    with True assms show ?thesis by (auto simp: update_artists_Inl)
  next
    case (Inr v)
    with True assms show ?thesis by (auto simp: update_artists_Inr)
  qed
qed


theorem update_artists_flags_witness:
  "update_artists example_cross_section = (None, example_cross_section)
   \<and> fst (update_artists (example_cross_section\<lparr>dirty := True, imdata := other_image\<rparr>)) = None
   \<and> im_clim (snd (update_artists (example_cross_section\<lparr>dirty := True, imdata := other_image\<rparr>))) = (5, 8)
   \<and> ax_v_xlim (snd (update_artists (example_cross_section\<lparr>dirty := True, imdata := other_image\<rparr>))) = (8, 5)
   \<and> ax_h_ylim (snd (update_artists (example_cross_section\<lparr>dirty := True, imdata := other_image\<rparr>))) = (5, 8)
   \<and> \<not> dirty (snd (update_artists (example_cross_section\<lparr>dirty := True, imdata := other_image\<rparr>)))
   \<and> \<not> cb_dirty (snd (update_artists (example_cross_section\<lparr>dirty := True, imdata := other_image\<rparr>)))"
proof -
  let ?cs = example_cross_section
  let ?cd = "example_cross_section\<lparr>dirty := True, imdata := other_image\<rparr>"
  have clean: "\<not> dirty ?cs \<and> \<not> cb_dirty ?cs"
    by (simp add: example_cross_section_def)
  have stale: "(dirty ?cd \<or> cb_dirty ?cd) \<and> limit_func ?cd (imdata ?cd) = Inr (5, 8)"
    using example_limits(1) by simp
  from update_artists_flags [OF refl, of ?cs] clean
  have "update_artists ?cs = (None, ?cs)"
    by blast
  moreover from update_artists_flags [OF refl, of ?cd "(5, 8)"] stale
  have "fst (update_artists ?cd) = None
    \<and> im_clim (snd (update_artists ?cd)) = (5, 8)
    \<and> ax_v_xlim (snd (update_artists ?cd)) = (snd (5::real, 8::real), fst (5::real, 8::real))
    \<and> ax_h_ylim (snd (update_artists ?cd)) = (5, 8)
    \<and> \<not> dirty (snd (update_artists ?cd)) \<and> \<not> cb_dirty (snd (update_artists ?cd))"
    by blast
  ultimately show ?thesis by simp
qed

section \<open>Properties of the stacked-line viewer\<close>

lemma setter_fields:
  "x' (set_xdata i v s) = x' s" "y' (set_xdata i v s) = y' s"
  "to_rgba (set_xdata i v s) = to_rgba s" "horz_offset (set_xdata i v s) = horz_offset s"
  "vert_offset (set_xdata i v s) = vert_offset s" "autoscale (set_xdata i v s) = autoscale s"
  "ax_xlim (set_xdata i v s) = ax_xlim s" "ax_ylim (set_xdata i v s) = ax_ylim s"
  "length (lines (set_xdata i v s)) = length (lines s)"
  "x' (set_ydata i v s) = x' s" "y' (set_ydata i v s) = y' s"
  "to_rgba (set_ydata i v s) = to_rgba s" "horz_offset (set_ydata i v s) = horz_offset s"
  "vert_offset (set_ydata i v s) = vert_offset s" "autoscale (set_ydata i v s) = autoscale s"
  "ax_xlim (set_ydata i v s) = ax_xlim s" "ax_ylim (set_ydata i v s) = ax_ylim s"
  "length (lines (set_ydata i v s)) = length (lines s)"
  "x' (set_color i c s) = x' s" "y' (set_color i c s) = y' s"
  "to_rgba (set_color i c s) = to_rgba s" "horz_offset (set_color i c s) = horz_offset s"
  "vert_offset (set_color i c s) = vert_offset s" "autoscale (set_color i c s) = autoscale s"
  "ax_xlim (set_color i c s) = ax_xlim s" "ax_ylim (set_color i c s) = ax_ylim s"
  "length (lines (set_color i c s)) = length (lines s)"
  by (simp_all add: set_xdata_def set_ydata_def set_color_def)

lemma setter_other:
  "j \<noteq> i \<Longrightarrow> lines (set_xdata i v s) ! j = lines s ! j"
  "j \<noteq> i \<Longrightarrow> lines (set_ydata i v s) ! j = lines s ! j"
  "j \<noteq> i \<Longrightarrow> lines (set_color i c s) ! j = lines s ! j"
  by (simp_all add: set_xdata_def set_ydata_def set_color_def)

lemma setter_same:
  "i < length (lines s) \<Longrightarrow> lines (set_xdata i v s) ! i = (lines s ! i)\<lparr>get_xdata := v\<rparr>"
  "i < length (lines s) \<Longrightarrow> lines (set_ydata i v s) ! i = (lines s ! i)\<lparr>get_ydata := v\<rparr>"
  "i < length (lines s) \<Longrightarrow> lines (set_color i c s) ! i = (lines s ! i)\<lparr>get_color := c\<rparr>"
  by (simp_all add: set_xdata_def set_ydata_def set_color_def)

lemma replot_loop_frame:
  "replot_loop idxs self = (r, s) \<Longrightarrow>
     x' s = x' self \<and> y' s = y' self \<and> to_rgba s = to_rgba self
     \<and> horz_offset s = horz_offset self \<and> vert_offset s = vert_offset self
     \<and> autoscale s = autoscale self \<and> ax_xlim s = ax_xlim self \<and> ax_ylim s = ax_ylim self
     \<and> length (lines s) = length (lines self)"
proof (induction idxs arbitrary: self)
  case Nil
  then show ?case by simp
next
  case (Cons idx rest)
  show ?case
  proof (cases "length (x' self) \<le> idx")
    case True
    with Cons.prems show ?thesis by simp
  next
    case False
    let ?s1 = "set_xdata idx (map (\<lambda>v. v + real idx * horz_offset self) (x' self ! idx)) self"
    show ?thesis
    proof (cases "length (y' self) \<le> idx")
      case True
      with False Cons.prems show ?thesis by (auto simp: Let_def setter_fields)
    next
      case y: False
      let ?s2 = "set_ydata idx (map (\<lambda>v. v + real idx * vert_offset self) (y' self ! idx)) ?s1"
      let ?s3 = "set_color idx (to_rgba self (real idx / real (length (lines self)))) ?s2"
      from False y Cons.prems have "replot_loop rest ?s3 = (r, s)"
        by (simp add: Let_def setter_fields)
      from Cons.IH [OF this] show ?thesis by (simp add: setter_fields)
    qed
  qed
qed

lemma replot_loop_lines:
  "replot_loop idxs self = (None, s) \<Longrightarrow> distinct idxs
     \<Longrightarrow> \<forall>i \<in> set idxs. i < length (lines self) \<Longrightarrow>
     (\<forall>i \<in> set idxs.
         get_xdata (lines s ! i) = map (\<lambda>v. v + real i * horz_offset self) (x' self ! i)
       \<and> get_ydata (lines s ! i) = map (\<lambda>v. v + real i * vert_offset self) (y' self ! i)
       \<and> get_color (lines s ! i) = to_rgba self (real i / real (length (lines self)))
       \<and> i < length (x' self) \<and> i < length (y' self))
     \<and> (\<forall>i. i \<notin> set idxs \<longrightarrow> lines s ! i = lines self ! i)"
proof (induction idxs arbitrary: self)
  case Nil
  then show ?case by simp
next
  case (Cons idx rest)
  let ?s1 = "set_xdata idx (map (\<lambda>v. v + real idx * horz_offset self) (x' self ! idx)) self"
  let ?s2 = "set_ydata idx (map (\<lambda>v. v + real idx * vert_offset self) (y' self ! idx)) ?s1"
  let ?s3 = "set_color idx (to_rgba self (real idx / real (length (lines self)))) ?s2"
  from Cons.prems(1) have inx: "idx < length (x' self)" and iny: "idx < length (y' self)"
    by (auto simp: Let_def setter_fields split: if_splits)
  with Cons.prems(1) have run: "replot_loop rest ?s3 = (None, s)"
    by (simp add: Let_def setter_fields)
  from Cons.prems have d: "distinct rest" "idx \<notin> set rest"
    and b: "\<forall>i \<in> set rest. i < length (lines ?s3)" and bi: "idx < length (lines self)"
    by (simp_all add: setter_fields)
  note IH = Cons.IH [OF run d(1) b]
  have at_idx: "lines ?s3 ! idx = (lines self ! idx)
      \<lparr>get_xdata := map (\<lambda>v. v + real idx * horz_offset self) (x' self ! idx),
       get_ydata := map (\<lambda>v. v + real idx * vert_offset self) (y' self ! idx),
       get_color := to_rgba self (real idx / real (length (lines self)))\<rparr>"
    using bi by (simp add: setter_same setter_fields)
  have other: "\<And>j. j \<noteq> idx \<Longrightarrow> lines ?s3 ! j = lines self ! j"
    by (simp add: setter_other)
  from IH d(2) have "lines s ! idx = lines ?s3 ! idx" by blast
  with at_idx have here:
    "get_xdata (lines s ! idx) = map (\<lambda>v. v + real idx * horz_offset self) (x' self ! idx)
     \<and> get_ydata (lines s ! idx) = map (\<lambda>v. v + real idx * vert_offset self) (y' self ! idx)
     \<and> get_color (lines s ! idx) = to_rgba self (real idx / real (length (lines self)))"
    by simp
  from IH have there: "\<forall>i \<in> set rest.
         get_xdata (lines s ! i) = map (\<lambda>v. v + real i * horz_offset self) (x' self ! i)
       \<and> get_ydata (lines s ! i) = map (\<lambda>v. v + real i * vert_offset self) (y' self ! i)
       \<and> get_color (lines s ! i) = to_rgba self (real i / real (length (lines self)))
       \<and> i < length (x' self) \<and> i < length (y' self)"
    by (simp add: setter_fields)
  from IH other have rest: "\<forall>i. i \<notin> set (idx # rest) \<longrightarrow> lines s ! i = lines self ! i"
    by simp
  from here there rest inx iny show ?case by simp
qed


lemma replot_loop_returns:
  "\<forall>i \<in> set idxs. i < length (x' self) \<and> i < length (y' self)
     \<Longrightarrow> fst (replot_loop idxs self) = None"
proof (induction idxs arbitrary: self)
  case Nil
  then show ?case by simp
next
  case (Cons idx rest)
  then show ?case by (simp add: Let_def setter_fields)
qed

lemma find_range_loop_Inr:
  "find_range_loop ls = Inr (a, b, c, d) \<Longrightarrow>
     a = map (\<lambda>l. Min (set (get_xdata l))) ls \<and> b = map (\<lambda>l. Max (set (get_xdata l))) ls
     \<and> c = map (\<lambda>l. Min (set (get_ydata l))) ls \<and> d = map (\<lambda>l. Max (set (get_ydata l))) ls
     \<and> (\<forall>l \<in> set ls. get_xdata l \<noteq> [] \<and> get_ydata l \<noteq> [])"
proof (induction ls arbitrary: a b c d)
  case Nil
  then show ?case by simp
next
  case (Cons l ls)
  from Cons.prems have ne: "get_xdata l \<noteq> []" "get_ydata l \<noteq> []"
    by (auto simp: np_min_def split: sum.splits list.splits)
  from Cons.prems ne obtain a' b' c' d' where
    tl: "find_range_loop ls = Inr (a', b', c', d')"
    and hd: "a = Min (set (get_xdata l)) # a'" "b = Max (set (get_xdata l)) # b'"
      "c = Min (set (get_ydata l)) # c'" "d = Max (set (get_ydata l)) # d'"
    by (auto simp: np_min_nonempty np_max_nonempty split: sum.splits)
  from Cons.IH [OF tl] hd ne show ?case by simp
qed

lemma find_range_loop_returns:
  "\<forall>l \<in> set ls. get_xdata l \<noteq> [] \<and> get_ydata l \<noteq> []
     \<Longrightarrow> \<exists>a b c d. find_range_loop ls = Inr (a, b, c, d) \<and> length a = length ls
          \<and> length b = length ls \<and> length c = length ls \<and> length d = length ls"
  by (induction ls) (auto simp: np_min_nonempty np_max_nonempty)

lemma Min_of_Mins:
  fixes xss :: "real list list"
  shows "xss \<noteq> [] \<Longrightarrow> \<forall>xs \<in> set xss. xs \<noteq> []
     \<Longrightarrow> Min (set (map (\<lambda>xs. Min (set xs)) xss)) = Min (set (concat xss))"
proof (induction xss)
  case Nil
  then show ?case by simp
next
  case (Cons xs xss)
  show ?case
  proof (cases "xss = []")
    case True
    then show ?thesis by simp
  next
    case False
    with Cons have IH: "Min (set (map (\<lambda>xs. Min (set xs)) xss)) = Min (set (concat xss))"
      by simp
    from False Cons.prems have ne: "set xs \<noteq> {}" "set (concat xss) \<noteq> {}"
      by (auto simp: neq_Nil_conv)
    have "Min (set (concat (xs # xss))) = min (Min (set xs)) (Min (set (concat xss)))"
      using ne by (simp add: Min_Un del: set_concat)
    with IH False show ?thesis by simp
  qed
qed

lemma Max_of_Maxs:
  fixes xss :: "real list list"
  shows "xss \<noteq> [] \<Longrightarrow> \<forall>xs \<in> set xss. xs \<noteq> []
     \<Longrightarrow> Max (set (map (\<lambda>xs. Max (set xs)) xss)) = Max (set (concat xss))"
proof (induction xss)
  case Nil
  then show ?case by simp
next
  case (Cons xs xss)
  show ?case
  proof (cases "xss = []")
    case True
    then show ?thesis by simp
  next
    case False
    with Cons have IH: "Max (set (map (\<lambda>xs. Max (set xs)) xss)) = Max (set (concat xss))"
      by simp
    from False Cons.prems have ne: "set xs \<noteq> {}" "set (concat xss) \<noteq> {}"
      by (auto simp: neq_Nil_conv)
    have "Max (set (concat (xs # xss))) = max (Max (set xs)) (Max (set (concat xss)))"
      using ne by (simp add: Max_Un del: set_concat)
    with IH False show ?thesis by simp
  qed
qed

lemma find_range_Inr:
  assumes "find_range self = Inr (a, b, c, d)"
  shows "a = Min (set (concat (map get_xdata (lines self))))
     \<and> b = Max (set (concat (map get_xdata (lines self))))
     \<and> c = Min (set (concat (map get_ydata (lines self))))
     \<and> d = Max (set (concat (map get_ydata (lines self))))
     \<and> lines self \<noteq> [] \<and> (\<forall>l \<in> set (lines self). get_xdata l \<noteq> [] \<and> get_ydata l \<noteq> [])"
proof -
  from assms obtain mnx mxx mny mxy where
    loop: "find_range_loop (lines self) = Inr (mnx, mxx, mny, mxy)"
    and res: "np_min mnx = Inr a" "np_max mxx = Inr b" "np_min mny = Inr c" "np_max mxy = Inr d"
    by (auto simp: find_range_def split: sum.splits)
  note L = find_range_loop_Inr [OF loop]
  from res(1) have "mnx \<noteq> []" by (auto simp: np_min_def)
  with L have ne: "lines self \<noteq> []" by auto
  from L have data: "\<forall>l \<in> set (lines self). get_xdata l \<noteq> [] \<and> get_ydata l \<noteq> []" by blast
  from ne L res have vals: "a = Min (set mnx)" "b = Max (set mxx)" "c = Min (set mny)" "d = Max (set mxy)"
    by (simp_all add: np_min_nonempty np_max_nonempty)
  have nx: "map get_xdata (lines self) \<noteq> []" "\<forall>xs \<in> set (map get_xdata (lines self)). xs \<noteq> []"
    and ny: "map get_ydata (lines self) \<noteq> []" "\<forall>xs \<in> set (map get_ydata (lines self)). xs \<noteq> []"
    using ne data by auto
  have "Min (set mnx) = Min (set (concat (map get_xdata (lines self))))"
    using Min_of_Mins [OF nx] L by (simp add: comp_def)
  moreover have "Max (set mxx) = Max (set (concat (map get_xdata (lines self))))"
    using Max_of_Maxs [OF nx] L by (simp add: comp_def)
  moreover have "Min (set mny) = Min (set (concat (map get_ydata (lines self))))"
    using Min_of_Mins [OF ny] L by (simp add: comp_def)
  moreover have "Max (set mxy) = Max (set (concat (map get_ydata (lines self))))"
    using Max_of_Maxs [OF ny] L by (simp add: comp_def)
  ultimately show ?thesis using vals ne data by simp
qed

lemma replot_None:
  "replot self = (None, s) \<Longrightarrow>
     \<exists>s0. replot_loop [0..<length (lines self)] self = (None, s0)
       \<and> (if autoscale s0
            then \<exists>a b c d. find_range s0 = Inr (a, b, c, d)
                   \<and> s = s0\<lparr>ax_xlim := (a, b), ax_ylim := (c, d)\<rparr>
            else s = s0)"
  by (auto simp: replot_def split: prod.splits option.splits sum.splits if_splits)

text \<open>
  C7. After every call to \<open>replot\<close> that returns, the number of line artists is
  unchanged and, for every index \<open>idx\<close> below it, line \<open>idx\<close> has as x-data the
  stored x-coordinates at \<open>idx\<close> plus \<open>idx\<close> times the horizontal offset, as y-data
  the stored y-coordinates at \<open>idx\<close> plus \<open>idx\<close> times the vertical offset, and as
  colour the colour lookup at \<open>idx\<close> divided by the number of line artists. When
  autoscaling is enabled the axes limits are the least and greatest x, and the least and
  greatest y, over the data of all lines. (The lemma \<open>replot_returns\<close> says when the call
  returns.)
\<close>

theorem replot_lines:
  assumes "replot self = (None, s)"
  shows "length (lines s) = length (lines self) \<and> x' s = x' self \<and> y' s = y' self
    \<and> horz_offset s = horz_offset self \<and> vert_offset s = vert_offset self
    \<and> (\<forall>idx < length (lines s).
          get_xdata (lines s ! idx) = map (\<lambda>v. v + real idx * horz_offset s) (x' s ! idx)
        \<and> get_ydata (lines s ! idx) = map (\<lambda>v. v + real idx * vert_offset s) (y' s ! idx)
        \<and> get_color (lines s ! idx) = to_rgba s (real idx / real (length (lines s))))
    \<and> (autoscale s \<longrightarrow>
          ax_xlim s = (Min (set (concat (map get_xdata (lines s)))),
                       Max (set (concat (map get_xdata (lines s)))))
        \<and> ax_ylim s = (Min (set (concat (map get_ydata (lines s)))),
                       Max (set (concat (map get_ydata (lines s))))))"
proof -
  from replot_None [OF assms] obtain s0 where
    loop: "replot_loop [0..<length (lines self)] self = (None, s0)"
    and fin: "if autoscale s0
            then \<exists>a b c d. find_range s0 = Inr (a, b, c, d)
                   \<and> s = s0\<lparr>ax_xlim := (a, b), ax_ylim := (c, d)\<rparr>
            else s = s0"
    by blast
  have same: "lines s = lines s0" "x' s = x' s0" "y' s = y' s0" "to_rgba s = to_rgba s0"
      "horz_offset s = horz_offset s0" "vert_offset s = vert_offset s0"
      "autoscale s = autoscale s0"
    using fin by (auto split: if_splits)
  have scaled: "autoscale s0 \<longrightarrow> (\<exists>a b c d. find_range s0 = Inr (a, b, c, d)
           \<and> ax_xlim s = (a, b) \<and> ax_ylim s = (c, d))"
    using fin by (auto split: if_splits)
  note F = replot_loop_frame [OF loop]
  have "distinct [0..<length (lines self)]"
    and "\<forall>i \<in> set [0..<length (lines self)]. i < length (lines self)"
    by simp_all
  note L = replot_loop_lines [OF loop this]
  have each: "\<forall>idx < length (lines s).
          get_xdata (lines s ! idx) = map (\<lambda>v. v + real idx * horz_offset s) (x' s ! idx)
        \<and> get_ydata (lines s ! idx) = map (\<lambda>v. v + real idx * vert_offset s) (y' s ! idx)
        \<and> get_color (lines s ! idx) = to_rgba s (real idx / real (length (lines s)))"
    using L F same by simp
  have limits: "autoscale s \<longrightarrow>
          ax_xlim s = (Min (set (concat (map get_xdata (lines s)))),
                       Max (set (concat (map get_xdata (lines s)))))
        \<and> ax_ylim s = (Min (set (concat (map get_ydata (lines s)))),
                       Max (set (concat (map get_ydata (lines s)))))"
  proof
    assume "autoscale s"
    with same scaled obtain a b c d where
      fr: "find_range s0 = Inr (a, b, c, d)" and lim: "ax_xlim s = (a, b)" "ax_ylim s = (c, d)"
      by auto
    from find_range_Inr [OF fr] lim same(1) show
      "ax_xlim s = (Min (set (concat (map get_xdata (lines s)))),
                       Max (set (concat (map get_xdata (lines s)))))
        \<and> ax_ylim s = (Min (set (concat (map get_ydata (lines s)))),
                       Max (set (concat (map get_ydata (lines s)))))"
      by simp
  qed
  from F same each limits show ?thesis by simp
qed


lemma replot_frame:
  "length (lines (snd (replot self))) = length (lines self)
   \<and> x' (snd (replot self)) = x' self \<and> y' (snd (replot self)) = y' self"
proof -
  obtain r s0 where loop: "replot_loop [0..<length (lines self)] self = (r, s0)"
    by (cases "replot_loop [0..<length (lines self)] self")
  from replot_loop_frame [OF loop] loop show ?thesis
    by (auto simp: replot_def split: option.splits sum.splits)
qed

lemma replot_returns:
  assumes "length (lines self) \<le> length (x' self)" and "length (lines self) \<le> length (y' self)"
    and "autoscale self \<longrightarrow> lines self \<noteq> []
           \<and> (\<forall>i < length (lines self). x' self ! i \<noteq> [] \<and> y' self ! i \<noteq> [])"
  shows "fst (replot self) = None"
proof -
  obtain r s0 where loop: "replot_loop [0..<length (lines self)] self = (r, s0)"
    by (cases "replot_loop [0..<length (lines self)] self")
  have "fst (replot_loop [0..<length (lines self)] self) = None"
    using assms(1,2) by (intro replot_loop_returns) auto
  with loop have r: "r = None" by simp
  note F = replot_loop_frame [OF loop]
  show ?thesis
  proof (cases "autoscale s0")
    case False
    with loop r show ?thesis by (simp add: replot_def)
  next
    case True
    have "distinct [0..<length (lines self)]"
      and "\<forall>i \<in> set [0..<length (lines self)]. i < length (lines self)"
      by simp_all
    note L = replot_loop_lines [OF loop [unfolded r] this]
    from True F assms(3) have ne: "lines s0 \<noteq> []"
      and data: "\<forall>i < length (lines self). x' self ! i \<noteq> [] \<and> y' self ! i \<noteq> []"
      by auto
    have "\<forall>l \<in> set (lines s0). get_xdata l \<noteq> [] \<and> get_ydata l \<noteq> []"
    proof
      fix l assume "l \<in> set (lines s0)"
      then obtain i where i: "i < length (lines s0)" "l = lines s0 ! i"
        by (auto simp: in_set_conv_nth)
      with F L data show "get_xdata l \<noteq> [] \<and> get_ydata l \<noteq> []" by simp
    qed
    from find_range_loop_returns [OF this] obtain a b c d where
      fr: "find_range_loop (lines s0) = Inr (a, b, c, d)"
      and len: "length a = length (lines s0)" "length b = length (lines s0)"
        "length c = length (lines s0)" "length d = length (lines s0)"
      by blast
    from len ne have "a \<noteq> []" "b \<noteq> []" "c \<noteq> []" "d \<noteq> []" by auto
    with fr have "\<exists>v. find_range s0 = Inr v"
      by (simp add: find_range_def np_min_nonempty np_max_nonempty)
    with loop r True show ?thesis
      by (auto simp: replot_def)
  qed
qed

lemma setter_add_line:
  "set_xdata i v (add_line x y s) = add_line x y (set_xdata i v s)"
  "set_ydata i v (add_line x y s) = add_line x y (set_ydata i v s)"
  "set_color i c (add_line x y s) = add_line x y (set_color i c s)"
  by (simp_all add: set_xdata_def set_ydata_def set_color_def add_line_def)

lemma add_line_fields:
  "x' (add_line x y s) = x' s @ [x]" "y' (add_line x y s) = y' s @ [y]"
  "lines (add_line x y s) = lines s" "to_rgba (add_line x y s) = to_rgba s"
  "horz_offset (add_line x y s) = horz_offset s" "vert_offset (add_line x y s) = vert_offset s"
  "autoscale (add_line x y s) = autoscale s"
  "ax_xlim (add_line x y s) = ax_xlim s" "ax_ylim (add_line x y s) = ax_ylim s"
  by (simp_all add: add_line_def)

lemma add_line_limits:
  "(add_line x y s)\<lparr>ax_xlim := a, ax_ylim := b\<rparr> = add_line x y (s\<lparr>ax_xlim := a, ax_ylim := b\<rparr>)"
  by (simp add: add_line_def)

lemma replot_loop_add_line:
  "\<forall>i \<in> set idxs. i < length (x' self) \<and> i < length (y' self)
     \<Longrightarrow> replot_loop idxs (add_line x y self)
         = (fst (replot_loop idxs self), add_line x y (snd (replot_loop idxs self)))"
proof (induction idxs arbitrary: self)
  case Nil
  then show ?case by simp
next
  case (Cons idx rest)
  let ?s1 = "set_xdata idx (map (\<lambda>v. v + real idx * horz_offset self) (x' self ! idx)) self"
  let ?s2 = "set_ydata idx (map (\<lambda>v. v + real idx * vert_offset self) (y' self ! idx)) ?s1"
  let ?s3 = "set_color idx (to_rgba self (real idx / real (length (lines self)))) ?s2"
  from Cons.prems have idx: "idx < length (x' self)" "idx < length (y' self)"
    and rest: "\<forall>i \<in> set rest. i < length (x' ?s3) \<and> i < length (y' ?s3)"
    by (simp_all add: setter_fields)
  from idx have "replot_loop (idx # rest) (add_line x y self) = replot_loop rest (add_line x y ?s3)"
    by (simp add: Let_def setter_fields add_line_fields setter_add_line nth_append)
  also have "\<dots> = (fst (replot_loop rest ?s3), add_line x y (snd (replot_loop rest ?s3)))"
    by (rule Cons.IH [OF rest])
  also from idx have "replot_loop rest ?s3 = replot_loop (idx # rest) self"
    by (simp add: Let_def setter_fields)
  finally show ?case .
qed

lemma find_range_add_line: "find_range (add_line x y s) = find_range s"
  by (simp add: find_range_def add_line_fields)

lemma replot_add_line:
  assumes "length (lines self) \<le> length (x' self)" and "length (lines self) \<le> length (y' self)"
  shows "replot (add_line x y self) = (fst (replot self), add_line x y (snd (replot self)))"
proof -
  have "\<forall>i \<in> set [0..<length (lines self)]. i < length (x' self) \<and> i < length (y' self)"
    using assms by auto
  note L = replot_loop_add_line [OF this, of x y]
  obtain r s0 where loop: "replot_loop [0..<length (lines self)] self = (r, s0)"
    by (cases "replot_loop [0..<length (lines self)] self")
  with L have "replot_loop [0..<length (lines self)] (add_line x y self) = (r, add_line x y s0)"
    by simp
  with loop show ?thesis
    by (cases r; cases "find_range s0")
      (auto simp: replot_def add_line_fields find_range_add_line add_line_limits)
qed

text \<open>
  C8. \<open>add_line\<close> appends \<open>x\<close> and \<open>y\<close> to the stored lists and leaves the line
  artists as they are. A following \<open>replot\<close> ends with as many line artists as before;
  and in a viewer with no more line artists than stored coordinate arrays (as after
  construction) it has the outcome, the line artists and the axes limits of a \<open>replot\<close>
  without the added data.
\<close>

theorem add_line_no_new_line:
  "lines (add_line x y self) = lines self
   \<and> x' (add_line x y self) = x' self @ [x] \<and> y' (add_line x y self) = y' self @ [y]
   \<and> length (lines (snd (replot (add_line x y self)))) = length (lines self)
   \<and> (length (lines self) \<le> length (x' self) \<and> length (lines self) \<le> length (y' self)
       \<longrightarrow> fst (replot (add_line x y self)) = fst (replot self)
         \<and> lines (snd (replot (add_line x y self))) = lines (snd (replot self))
         \<and> ax_xlim (snd (replot (add_line x y self))) = ax_xlim (snd (replot self))
         \<and> ax_ylim (snd (replot (add_line x y self))) = ax_ylim (snd (replot self)))"
proof -
  have "length (lines (snd (replot (add_line x y self)))) = length (lines self)"
    using replot_frame [of "add_line x y self"] by (simp add: add_line_fields)
  moreover have "length (lines self) \<le> length (x' self) \<and> length (lines self) \<le> length (y' self)
       \<longrightarrow> fst (replot (add_line x y self)) = fst (replot self)
         \<and> lines (snd (replot (add_line x y self))) = lines (snd (replot self))
         \<and> ax_xlim (snd (replot (add_line x y self))) = ax_xlim (snd (replot self))
         \<and> ax_ylim (snd (replot (add_line x y self))) = ax_ylim (snd (replot self))"
    by (simp add: replot_add_line add_line_fields)
  ultimately show ?thesis by (simp add: add_line_fields)
qed

lemma example_replot:
  "replot example_viewer =
     (None, example_viewer
        \<lparr>lines := [\<lparr>get_xdata = [0, 1], get_ydata = [1, 2], get_visible = True, get_color = 0\<rparr>,
               \<lparr>get_xdata = [0.5, 1.5], get_ydata = [13, 15], get_visible = True, get_color = 0.5\<rparr>],
         ax_xlim := (0, 1.5), ax_ylim := (1, 15)\<rparr>)"
  by (simp add: replot_def example_viewer_def upt_rec Let_def set_xdata_def set_ydata_def
      set_color_def find_range_def np_min_def np_max_def)


theorem replot_lines_witness:
  "replot example_viewer = (None, snd (replot example_viewer))
   \<and> get_xdata (lines (snd (replot example_viewer)) ! 1) = [0.5, 1.5]
   \<and> get_ydata (lines (snd (replot example_viewer)) ! 1) = [13, 15]
   \<and> get_color (lines (snd (replot example_viewer)) ! 1) = 0.5
   \<and> ax_xlim (snd (replot example_viewer)) = (0, 1.5)
   \<and> ax_ylim (snd (replot example_viewer)) = (1, 15)"
proof -
  let ?s = "snd (replot example_viewer)"
  have r: "replot example_viewer = (None, ?s)"
    by (simp add: example_replot)
  note t = replot_lines [OF r]
  have stored: "length (lines example_viewer) = 2" "x' example_viewer ! Suc 0 = [0, 1]"
    "y' example_viewer ! Suc 0 = [3, 5]" "horz_offset example_viewer = 0.5"
    "vert_offset example_viewer = 10" "to_rgba example_viewer = (\<lambda>v. v)"
    by (simp_all add: example_viewer_def)
  have after: "autoscale ?s" "to_rgba ?s = to_rgba example_viewer"
    "concat (map get_xdata (lines ?s)) = [0, 1, 0.5, 1.5]"
    "concat (map get_ydata (lines ?s)) = [1, 2, 13, 15]"
    by (simp_all add: example_replot, simp_all add: example_viewer_def)
  from t stored(1) have "1 < length (lines ?s)" by simp
  with t have
    "get_xdata (lines ?s ! 1) = map (\<lambda>v. v + real 1 * horz_offset ?s) (x' ?s ! 1)
     \<and> get_ydata (lines ?s ! 1) = map (\<lambda>v. v + real 1 * vert_offset ?s) (y' ?s ! 1)
     \<and> get_color (lines ?s ! 1) = to_rgba ?s (real 1 / real (length (lines ?s)))"
    by blast
  moreover from t have "x' ?s = x' example_viewer" "y' ?s = y' example_viewer"
    "horz_offset ?s = horz_offset example_viewer" "vert_offset ?s = vert_offset example_viewer"
    "length (lines ?s) = length (lines example_viewer)"
    by simp_all
  ultimately have line1: "get_xdata (lines ?s ! 1) = [0.5, 1.5]
     \<and> get_ydata (lines ?s ! 1) = [13, 15] \<and> get_color (lines ?s ! 1) = 0.5"
    by (simp add: stored after(2))
  from t after(1) have
    "ax_xlim ?s = (Min (set (concat (map get_xdata (lines ?s)))),
                   Max (set (concat (map get_xdata (lines ?s)))))
     \<and> ax_ylim ?s = (Min (set (concat (map get_ydata (lines ?s)))),
                   Max (set (concat (map get_ydata (lines ?s)))))"
    by blast
  then have limits: "ax_xlim ?s = (0, 1.5) \<and> ax_ylim ?s = (1, 15)"
    by (simp add: after(3,4))
  from r line1 limits show ?thesis by simp
qed

theorem add_line_no_new_line_witness:
  "length (lines example_viewer) \<le> length (x' example_viewer)
   \<and> length (lines example_viewer) \<le> length (y' example_viewer)
   \<and> x' (add_line [7, 8] [9, 9] example_viewer) = [ [0, 1], [0, 1], [7, 8] ]
   \<and> length (lines (snd (replot (add_line [7, 8] [9, 9] example_viewer)))) = 2
   \<and> lines (snd (replot (add_line [7, 8] [9, 9] example_viewer)))
       = lines (snd (replot example_viewer))
   \<and> ax_xlim (snd (replot (add_line [7, 8] [9, 9] example_viewer))) = (0, 1.5)"
proof -
  have inv: "length (lines example_viewer) \<le> length (x' example_viewer)
      \<and> length (lines example_viewer) \<le> length (y' example_viewer)"
    and stored: "x' example_viewer = [ [0, 1], [0, 1] ]" "length (lines example_viewer) = 2"
    by (simp_all add: example_viewer_def)
  have lim: "ax_xlim (snd (replot example_viewer)) = (0, 1.5)"
    by (simp add: example_replot)
  from add_line_no_new_line [of "[7, 8]" "[9, 9]" example_viewer] inv
  have a: "x' (add_line [7, 8] [9, 9] example_viewer) = x' example_viewer @ [ [7, 8] ]"
    and b: "length (lines (snd (replot (add_line [7, 8] [9, 9] example_viewer))))
        = length (lines example_viewer)"
    and c: "lines (snd (replot (add_line [7, 8] [9, 9] example_viewer)))
        = lines (snd (replot example_viewer))"
    and d: "ax_xlim (snd (replot (add_line [7, 8] [9, 9] example_viewer)))
        = ax_xlim (snd (replot example_viewer))"
    by blast+
  from a stored(1) have a': "x' (add_line [7, 8] [9, 9] example_viewer) = [ [0, 1], [0, 1], [7, 8] ]"
    by simp
  from b stored(2) have b': "length (lines (snd (replot (add_line [7, 8] [9, 9] example_viewer)))) = 2"
    by simp
  from d lim have d': "ax_xlim (snd (replot (add_line [7, 8] [9, 9] example_viewer))) = (0, 1.5)"
    by simp
  from inv a' b' c d' show ?thesis by blast
qed

section \<open>Properties of the tree view\<close>

declare fill_item.simps [simp del]

lemma add_child_sel:
  "item_text (add_child n c) = item_text n" "isExpanded (add_child n c) = isExpanded n"
  "child_items (add_child n c) = child_items n @ [c]"
  by (cases n; simp)+

lemma setExpanded_sel:
  "item_text (setExpanded e n) = item_text n" "isExpanded (setExpanded e n) = e"
  "child_items (setExpanded e n) = child_items n"
  by (cases n; simp)+

lemma setText_sel:
  "item_text (setText t n) = t" "isExpanded (setText t n) = isExpanded n"
  "child_items (setText t n) = child_items n"
  by (cases n; simp)+

lemma fold_add_child:
  "fold (\<lambda>x n. add_child n (f x)) xs node
     = Item (item_text node) (isExpanded node) (child_items node @ map f xs)"
proof (induction xs arbitrary: node)
  case Nil
  then show ?case by simp
next
  case (Cons x xs)
  then show ?case by (simp add: add_child_sel)
qed

lemma fill_item_dict:
  "fill_item unicode node (PyDict t kvs) node_name =
     Item (item_text node) False
       (child_items node @
        map (\<lambda>(k, v). fill_item unicode (Item (unicode (PyOther k)) False []) v None)
          (sorted_items kvs))"
proof -
  have "(\<lambda>(k, v) node. let dict_child = setText (unicode (PyOther k)) QTreeWidgetItem
                          in add_child node (fill_item unicode dict_child v None))
        = (\<lambda>x n. add_child n
             ((\<lambda>(k, v). fill_item unicode (Item (unicode (PyOther k)) False []) v None) x))"
    by (simp add: fun_eq_iff QTreeWidgetItem_def)
  then show ?thesis
    by (simp add: fill_item.simps(1) fold_add_child setExpanded_sel defaults_expanded_def)
qed

lemma fill_item_other:
  "fill_item unicode node (PyOther a) node_name =
     Item (item_text node) False
       (child_items node @
        [Item (unicode (case node_name of None \<Rightarrow> PyOther a | Some n \<Rightarrow> n)) False [] ])"
  by (cases node) (simp add: fill_item.simps(3) QTreeWidgetItem_def defaults_expanded_def)

lemma fill_item_list_fold:
  "fill_item unicode node (PyList t vs) node_name =
     Item (item_text node) False
       (child_items node @
        map (\<lambda>v. setExpanded False
                   (if type_is_dict v then fill_item unicode (Item ''[dict]'' False []) v None
                    else if type_is_list v then fill_item unicode (Item ''[list]'' False []) v None
                    else Item (unicode v) False [])) vs)"
proof -
  have "(\<lambda>v node. let list_child =
                   (if type_is_dict v then
                      fill_item unicode (setText ''[dict]'' QTreeWidgetItem) v None
                    else if type_is_list v then
                      fill_item unicode (setText ''[list]'' QTreeWidgetItem) v None
                    else setText (unicode v) QTreeWidgetItem)
             in add_child node (setExpanded defaults_expanded list_child))
        = (\<lambda>x n. add_child n ((\<lambda>v. setExpanded False
                   (if type_is_dict v then fill_item unicode (Item ''[dict]'' False []) v None
                    else if type_is_list v then fill_item unicode (Item ''[list]'' False []) v None
                    else Item (unicode v) False [])) x))"
    by (simp add: fun_eq_iff QTreeWidgetItem_def defaults_expanded_def)
  then show ?thesis
    by (simp add: fill_item.simps(2) fold_add_child setExpanded_sel defaults_expanded_def)
qed

lemma fill_item_sel:
  "item_text (fill_item unicode node obj node_name) = item_text node"
  "isExpanded (fill_item unicode node obj node_name) = False"
  by (cases obj; simp add: fill_item_dict fill_item_list_fold fill_item_other)+

lemma setExpanded_fill_item:
  "setExpanded False (fill_item unicode node obj node_name) = fill_item unicode node obj node_name"
  by (cases "fill_item unicode node obj node_name")
    (use fill_item_sel(2) [of unicode node obj node_name] in auto)

lemma fill_item_list:
  "fill_item unicode node (PyList t vs) node_name =
     Item (item_text node) False
       (child_items node @
        map (\<lambda>v. if type_is_dict v then fill_item unicode (Item ''[dict]'' False []) v None
                  else if type_is_list v then fill_item unicode (Item ''[list]'' False []) v None
                  else Item (unicode v) False []) vs)"
proof -
  have "(\<lambda>v. setExpanded False
                   (if type_is_dict v then fill_item unicode (Item ''[dict]'' False []) v None
                    else if type_is_list v then fill_item unicode (Item ''[list]'' False []) v None
                    else Item (unicode v) False []))
      = (\<lambda>v. if type_is_dict v then fill_item unicode (Item ''[dict]'' False []) v None
                  else if type_is_list v then fill_item unicode (Item ''[list]'' False []) v None
                  else Item (unicode v) False [])"
    by (auto simp: fun_eq_iff setExpanded_fill_item)
  then show ?thesis by (simp add: fill_item_list_fold)
qed

lemma fill_item_append:
  "fill_item unicode node obj node_name =
     Item (item_text node) False
       (child_items node @ child_items (fill_item unicode (Item [] False []) obj node_name))"
  by (cases obj) (simp_all add: fill_item_dict fill_item_list fill_item_other)




text \<open>
  C10. \<open>fill_widget(obj)\<close> clears the tree before filling it: the items shown
  afterwards are those that \<open>fill_item\<close> gives from \<open>obj\<close> under an empty root,
  whatever the widget showed before, and a second \<open>fill_widget\<close> with the same object
  leaves the widget as the first one left it.
\<close>

theorem fill_widget_idempotent:
  "child_items (invisibleRootItem (fill_widget unicode obj w1))
     = child_items (invisibleRootItem (fill_widget unicode obj w2))
   \<and> child_items (invisibleRootItem (fill_widget unicode obj w1))
     = child_items (fill_item unicode (Item [] False []) obj None)
   \<and> fill_widget unicode obj (fill_widget unicode obj w1) = fill_widget unicode obj w1"
proof -
  have top: "invisibleRootItem (fill_widget unicode obj w)
      = Item (item_text (invisibleRootItem w)) False
          (child_items (fill_item unicode (Item [] False []) obj None))" for w
  proof -
    have "invisibleRootItem (fill_widget unicode obj w)
        = fill_item unicode
            (Item (item_text (invisibleRootItem w)) (isExpanded (invisibleRootItem w)) [])
            obj None"
      by (simp add: fill_widget_def tree_clear_def Let_def)
    also have "\<dots> = Item (item_text (invisibleRootItem w)) False
          ([] @ child_items (fill_item unicode (Item [] False []) obj None))"
      by (subst fill_item_append) simp
    finally show ?thesis by simp
  qed
  have "invisibleRootItem (fill_widget unicode obj (fill_widget unicode obj w1))
      = invisibleRootItem (fill_widget unicode obj w1)"
    by (simp add: top)
  moreover have "tree_widget.more (fill_widget unicode obj (fill_widget unicode obj w1))
      = tree_widget.more (fill_widget unicode obj w1)"
    by (simp add: fill_widget_def tree_clear_def Let_def)
  ultimately have "fill_widget unicode obj (fill_widget unicode obj w1) = fill_widget unicode obj w1"
    by (rule tree_widget.equality)
  with top show ?thesis by simp
qed



lemma example_tree_items:
  "child_items (fill_item str_unicode (Item [] False []) example_tree None) =
       [Item ''a'' False
          [Item ''x'' False [],
           Item ''[dict]'' False [Item ''k'' False [Item ''v'' False [] ] ],
           Item ''[list]'' False [Item ''y'' False [] ] ],
        Item ''b'' False [Item ''1'' False [] ] ]"
  by (simp add: example_tree_def fill_item_dict fill_item_list fill_item_other sorted_items_def)

theorem fill_widget_idempotent_witness:
  "child_items (invisibleRootItem (fill_widget str_unicode example_tree example_widget)) =
       [Item ''a'' False
          [Item ''x'' False [],
           Item ''[dict]'' False [Item ''k'' False [Item ''v'' False [] ] ],
           Item ''[list]'' False [Item ''y'' False [] ] ],
        Item ''b'' False [Item ''1'' False [] ] ]
   \<and> fill_widget str_unicode example_tree (fill_widget str_unicode example_tree example_widget)
       = fill_widget str_unicode example_tree example_widget"
  using fill_widget_idempotent [of str_unicode example_tree example_widget example_widget]
  by (simp add: example_tree_items)

section \<open>Properties of the construction of the 2D view\<close>

text \<open>
  C9. With the key \<open>limit_args\<close> among the keyword arguments, \<open>__init__\<close> raises
  \<open>Exception\<close> and nothing of the remaining initialisation has run; if the construction
  succeeds, the key is absent.
\<close>

theorem init_rejects_limit_args:
  "(''limit_args'' \<in> dom kwargs \<longrightarrow>
      CrossSection2DView_init kwargs init_rest w = (Some Exception, w))
   \<and> (''limit_args'' \<notin> dom kwargs \<longrightarrow>
      CrossSection2DView_init kwargs init_rest w = init_rest w)
   \<and> (fst (CrossSection2DView_init kwargs init_rest w) = None \<longrightarrow> ''limit_args'' \<notin> dom kwargs)"
  by (simp add: CrossSection2DView_init_def)

theorem init_rejects_limit_args_witness:
  "CrossSection2DView_init [''limit_args'' \<mapsto> (0::int, 1::int)] (\<lambda>n. (None, Suc n)) 0
     = (Some Exception, 0)
   \<and> CrossSection2DView_init [''interpolation'' \<mapsto> (0::int, 1::int)] (\<lambda>n. (None, Suc n)) 0
     = (None, Suc 0)
   \<and> ''limit_args'' \<notin> dom [''interpolation'' \<mapsto> (0::int, 1::int)]"
proof -
  have present: "''limit_args'' \<in> dom [''limit_args'' \<mapsto> (0::int, 1::int)]"
    and absent: "''limit_args'' \<notin> dom [''interpolation'' \<mapsto> (0::int, 1::int)]"
    by simp_all
  from init_rejects_limit_args [of "[''limit_args'' \<mapsto> (0::int, 1::int)]" "\<lambda>n. (None, Suc n)" "0::nat"]
    present
  have a: "CrossSection2DView_init [''limit_args'' \<mapsto> (0::int, 1::int)] (\<lambda>n. (None, Suc n)) 0
     = (Some Exception, 0)"
    by blast
  from init_rejects_limit_args [of "[''interpolation'' \<mapsto> (0::int, 1::int)]" "\<lambda>n. (None, Suc n)" "0::nat"]
    absent
  have b: "CrossSection2DView_init [''interpolation'' \<mapsto> (0::int, 1::int)] (\<lambda>n. (None, Suc n)) 0
     = (None, Suc 0)"
    by blast
  from a b absent show ?thesis by blast
qed

end
